theory Spec2Isabelle
  imports Main
begin

section \<open>Python values\<close>

text \<open>
  Decoded JSON, as \<^verbatim>\<open>response.json()\<close> returns it and as \<^verbatim>\<open>requests.post(json=...)\<close>
  takes it. A \<open>JObj\<close> holds the items of a Python dict in order; a key is looked up from the
  left.
\<close>

datatype json =
    JNull
  | JBool bool
  | JNum int
  | JStr string
  | JList "json list"
  | JObj "(string \<times> json) list"

text \<open>Decimal text of an integer, as \<^verbatim>\<open>str\<close> and an f-string print it.\<close>

definition digit_char :: "nat \<Rightarrow> char" where
  "digit_char d = ''0123456789'' ! d"

fun digits10 :: "nat \<Rightarrow> string" where
  "digits10 n = (if n < 10 then [digit_char n] else digits10 (n div 10) @ [digit_char (n mod 10)])"

declare digits10.simps [simp del]

definition str_int :: "int \<Rightarrow> string" where
  "str_int i = (if i < 0 then CHR ''-'' # digits10 (nat (- i)) else digits10 (nat i))"

text \<open>A string between single quotes, as \<^verbatim>\<open>repr\<close> shows it (escapes are not modelled).\<close>

definition py_quote :: "string \<Rightarrow> string" where
  "py_quote s = CHR 0x27 # s @ [CHR 0x27]"

section \<open>Exceptions\<close>

text \<open>
  \<^verbatim>\<open>class FormantClientRequestError(Exception)\<close> with its two fields. \<open>__init__\<close> takes the
  message and the flag; the flag's default is \<open>True\<close>, and \<open>new_error\<close> is the call that
  passes the message alone, which is how every \<^verbatim>\<open>raise\<close> of the module constructs it.
\<close>

record FormantClientRequestError =
  message :: string
  retryable :: bool

definition retryable_default :: bool where
  "retryable_default = True"

definition FormantClientRequestError_init :: "string \<Rightarrow> bool \<Rightarrow> FormantClientRequestError" where
  "FormantClientRequestError_init msg flag = \<lparr>message = msg, retryable = flag\<rparr>"

definition new_error :: "string \<Rightarrow> FormantClientRequestError" where
  "new_error msg = FormantClientRequestError_init msg retryable_default"

definition FormantClientRequestError_str :: "FormantClientRequestError \<Rightarrow> string" where
  "FormantClientRequestError_str e = ''FormantClientRequestError: '' @ message e"

text \<open>
  The other exceptions the module can meet, each with the text \<^verbatim>\<open>str\<close> gives for it:
  a failed subscript, a failed attribute lookup, a body that does not decode, and a failure
  of the transport itself.
\<close>

datatype pyexc =
    KeyError string
  | TypeError string
  | AttributeError string
  | JSONDecodeError string
  | RequestException string

datatype exn = FormantErr FormantClientRequestError | Other pyexc

fun pyexc_str :: "pyexc \<Rightarrow> string" where
  "pyexc_str (KeyError k) = k"
| "pyexc_str (TypeError m) = m"
| "pyexc_str (AttributeError m) = m"
| "pyexc_str (JSONDecodeError m) = m"
| "pyexc_str (RequestException m) = m"

fun exn_str :: "exn \<Rightarrow> string" where
  "exn_str (FormantErr e) = FormantClientRequestError_str e"
| "exn_str (Other x) = pyexc_str x"

section \<open>Operations on decoded JSON\<close>

text \<open>\<^verbatim>\<open>x[key]\<close> with a string key. A \<open>KeyError\<close> carries the key's \<open>repr\<close>.\<close>

fun py_getitem :: "json \<Rightarrow> string \<Rightarrow> pyexc + json" where
  "py_getitem (JObj kvs) k =
     (case map_of kvs k of
        None \<Rightarrow> Inl (KeyError (py_quote k))
      | Some v \<Rightarrow> Inr v)"
| "py_getitem (JList xs) k = Inl (TypeError ''list indices must be integers or slices, not str'')"
| "py_getitem (JStr s) k = Inl (TypeError ''string indices must be integers'')"
| "py_getitem (JNum n) k = Inl (TypeError ''int object is not subscriptable'')"
| "py_getitem (JBool b) k = Inl (TypeError ''bool object is not subscriptable'')"
| "py_getitem JNull k = Inl (TypeError ''NoneType object is not subscriptable'')"

text \<open>
  The elements \<^verbatim>\<open>list.extend(x)\<close> appends: those of a list, the keys of a dict, the
  characters of a string; anything else is not iterable.
\<close>

fun py_iter :: "json \<Rightarrow> pyexc + json list" where
  "py_iter (JList xs) = Inr xs"
| "py_iter (JObj kvs) = Inr (map (\<lambda>kv. JStr (fst kv)) kvs)"
| "py_iter (JStr s) = Inr (map (\<lambda>c. JStr [c]) s)"
| "py_iter (JNum n) = Inl (TypeError ''int object is not iterable'')"
| "py_iter (JBool b) = Inl (TypeError ''bool object is not iterable'')"
| "py_iter JNull = Inl (TypeError ''NoneType object is not iterable'')"

text \<open>\<^verbatim>\<open>len(x)\<close>.\<close>

fun py_len :: "json \<Rightarrow> pyexc + int" where
  "py_len (JList xs) = Inr (int (length xs))"
| "py_len (JObj kvs) = Inr (int (length kvs))"
| "py_len (JStr s) = Inr (int (length s))"
| "py_len (JNum n) = Inl (TypeError ''object of type int has no len()'')"
| "py_len (JBool b) = Inl (TypeError ''object of type bool has no len()'')"
| "py_len JNull = Inl (TypeError ''object of type NoneType has no len()'')"

text \<open>
  The text an f-string puts for a decoded value. Scalars are exact; inside a container the
  elements are separated as Python does, strings quoted without escapes.
\<close>

fun py_repr :: "json \<Rightarrow> string" where
  "py_repr JNull = ''None''"
| "py_repr (JBool b) = (if b then ''True'' else ''False'')"
| "py_repr (JNum n) = str_int n"
| "py_repr (JStr s) = py_quote s"
| "py_repr (JList xs) = ''['' @ concat (map (\<lambda>x. py_repr x @ '', '') xs) @ '']''"
| "py_repr (JObj kvs) =
     ''{'' @ concat (map (\<lambda>kv. py_quote (fst kv) @ '': '' @ py_repr (snd kv) @ '', '') kvs) @ ''}''"

definition py_str :: "json \<Rightarrow> string" where
  "py_str v = (case v of JStr s \<Rightarrow> s | _ \<Rightarrow> py_repr v)"

section \<open>The transport\<close>

text \<open>
  A call \<^verbatim>\<open>requests.post(url=..., headers=..., json=...)\<close> and what comes back: a
  \<^verbatim>\<open>Response\<close> with its status, its raw text and what \<^verbatim>\<open>.json()\<close> gives (the decoded
  body, or the exception of a body that does not decode), or an exception of the transport.
  The backend is any deterministic server: its answer is a function of all requests sent so
  far, the current one last.
\<close>

record request =
  url :: string
  headers :: "(string \<times> string) list option"
  json_body :: json

record response =
  status_code :: int
  response_text :: string
  response_json :: "pyexc + json"

type_synonym backend = "request list \<Rightarrow> pyexc + response"

text \<open>
  \<^verbatim>\<open>response.status\<close>: a \<^verbatim>\<open>requests.Response\<close> has \<^verbatim>\<open>status_code\<close> and no attribute
  \<^verbatim>\<open>status\<close>, so the lookup raises.
\<close>

definition response_status :: "response \<Rightarrow> pyexc + int" where
  "response_status r = Inl (AttributeError ''Response object has no attribute status'')"

section \<open>The client and the world it runs in\<close>

record FormantClient =
  admin_api_endpoint :: string
  email :: string
  password :: string
  authenticated_headers :: "(string \<times> string) list"

text \<open>
  The state a call can change: the client object, the requests sent so far (oldest first)
  and the records of \<^verbatim>\<open>logging.warning\<close> (oldest first).
\<close>

record world =
  client :: FormantClient
  sent :: "request list"
  warnings :: "string list"

text \<open>A call that may raise, may change the world, and may not return (\<open>None\<close>).\<close>

type_synonym 'a action = "world \<Rightarrow> ((exn + 'a) \<times> world) option"

definition FormantClient_init :: "string \<Rightarrow> string \<Rightarrow> string \<Rightarrow> FormantClient" where
  "FormantClient_init endpoint formant_email formant_password =
     \<lparr>admin_api_endpoint = endpoint, email = formant_email, password = formant_password,
      authenticated_headers = []\<rparr>"

definition requests_post :: "backend \<Rightarrow> request \<Rightarrow> world \<Rightarrow> (pyexc + response) \<times> world" where
  "requests_post be r w = (be (sent w @ [r]), w\<lparr>sent := sent w @ [r]\<rparr>)"

definition logging_warning :: "string \<Rightarrow> world \<Rightarrow> world" where
  "logging_warning m w = w\<lparr>warnings := warnings w @ [m]\<rparr>"

definition get_get_admin_endpoint :: "FormantClient \<Rightarrow> string \<Rightarrow> string" where
  "get_get_admin_endpoint self path = admin_api_endpoint self @ path"

section \<open>The retry decorator\<close>

definition NUM_RETRIES :: int where
  "NUM_RETRIES = 5"

text \<open>\<^verbatim>\<open>range(n)\<close>: empty when \<open>n \<le> 0\<close>.\<close>

definition py_range :: "int \<Rightarrow> int list" where
  "py_range n = map int [0..<nat n]"

definition retry_message :: "FormantClientRequestError \<Rightarrow> int \<Rightarrow> int \<Rightarrow> string" where
  "retry_message e i max_retries =
     ''Request failed with error: '' @ FormantClientRequestError_str e @ ''. Retrying ('' @
     str_int (i + 1) @ ''/'' @ str_int max_retries @ '')''"

text \<open>
  How the \<^verbatim>\<open>for\<close> loop of \<open>wrapper\<close> ends: a \<^verbatim>\<open>return\<close> inside it, an exception that leaves
  it, or the end of the range.
\<close>

datatype 'a loop_exit = Returned 'a | Raised exn | Fell_through

fun wrapper_loop :: "int \<Rightarrow> 'a action \<Rightarrow> int list \<Rightarrow> world \<Rightarrow> ('a loop_exit \<times> world) option" where
  "wrapper_loop max_retries func [] w = Some (Fell_through, w)"
| "wrapper_loop max_retries func (i # is) w =
     (case func w of
        None \<Rightarrow> None
      | Some (Inr v, w1) \<Rightarrow> Some (Returned v, w1)
      | Some (Inl (FormantErr e), w1) \<Rightarrow>
          if \<not> retryable e then Some (Raised (FormantErr e), w1)
          else wrapper_loop max_retries func is
                 (logging_warning (retry_message e i max_retries) w1)
      | Some (Inl (Other x), w1) \<Rightarrow> Some (Raised (Other x), w1))"

text \<open>
  \<open>formant_client_retry_on_failure max_retries propegrate_error func\<close> is the \<open>wrapper\<close> the
  decorator puts in place of \<open>func\<close>. It returns what \<open>func\<close> returned (\<open>Some v\<close>), or
  Python's \<open>None\<close> when the retries are used up and \<open>propegrate_error\<close> is false.
\<close>

definition exhausted_error :: "int \<Rightarrow> FormantClientRequestError" where
  "exhausted_error max_retries =
     new_error (''Request failed after '' @ str_int max_retries @ '' retries'')"

definition formant_client_retry_on_failure ::
  "int \<Rightarrow> bool \<Rightarrow> 'a action \<Rightarrow> 'a option action" where
  "formant_client_retry_on_failure max_retries propegrate_error func w =
     (case wrapper_loop max_retries func (py_range max_retries) w of
        None \<Rightarrow> None
      | Some (Returned v, w1) \<Rightarrow> Some (Inr (Some v), w1)
      | Some (Raised e, w1) \<Rightarrow> Some (Inl e, w1)
      | Some (Fell_through, w1) \<Rightarrow>
          if propegrate_error then Some (Inl (FormantErr (exhausted_error max_retries)), w1)
          else Some (Inr None, w1))"

section \<open>Authentication\<close>

definition login_request :: "FormantClient \<Rightarrow> request" where
  "login_request self =
     \<lparr>url = get_get_admin_endpoint self ''/auth/login'',
      headers = None,
      json_body = JObj [(''email'', JStr (email self)), (''password'', JStr (password self)),
                        (''tokenExpirationSeconds'', JNum 86400)]\<rparr>"

text \<open>The body of \<open>_authenticate\<close>, before the decorator.\<close>

definition authenticate_body :: "backend \<Rightarrow> unit action" where
  "authenticate_body be w =
     (if length (authenticated_headers (client w)) > 0 then Some (Inr (), w)
      else
        (case requests_post be (login_request (client w)) w of
           (Inl x, w1) \<Rightarrow> Some (Inl (Other x), w1)
         | (Inr response, w1) \<Rightarrow>
             if status_code response = 200 then
               (case response_json response of
                  Inl x \<Rightarrow> Some (Inl (Other x), w1)
                | Inr decoded \<Rightarrow>
                    (case py_getitem decoded ''authentication'' of
                       Inl x \<Rightarrow> Some (Inl (Other x), w1)
                     | Inr auth \<Rightarrow>
                         (case py_getitem auth ''accessToken'' of
                            Inl x \<Rightarrow> Some (Inl (Other x), w1)
                          | Inr token \<Rightarrow>
                              Some (Inr (),
                                w1\<lparr>client := (client w1)\<lparr>authenticated_headers :=
                                  [(''authorization'', ''Bearer '' @ py_str token),
                                   (''content-type'', ''application/json'')]\<rparr>\<rparr>))))
             else
               Some (Inl (FormantErr (new_error
                 (''Failed to authenticate... '' @ response_text response))), w1)))"

definition authenticate :: "backend \<Rightarrow> unit option action" where
  "authenticate be = formant_client_retry_on_failure NUM_RETRIES True (authenticate_body be)"

definition get_authenticated_headers :: "backend \<Rightarrow> (string \<times> string) list action" where
  "get_authenticated_headers be w =
     (case authenticate be w of
        None \<Rightarrow> None
      | Some (Inl e, w1) \<Rightarrow> Some (Inl e, w1)
      | Some (Inr u, w1) \<Rightarrow> Some (Inr (authenticated_headers (client w1)), w1))"

section \<open>Querying robots\<close>

definition query_request :: "FormantClient \<Rightarrow> (string \<times> string) list \<Rightarrow> json \<Rightarrow> bool \<Rightarrow> request" where
  "query_request self hdrs tags enabled_only =
     \<lparr>url = get_get_admin_endpoint self ''/devices/query'',
      headers = Some hdrs,
      json_body = JObj ([(''tags'', tags)] @ (if enabled_only then [(''enabled'', JBool True)] else []))\<rparr>"

text \<open>\<^verbatim>\<open>response.json()["items"]\<close>, with whatever either step raises.\<close>

definition extract_items :: "response \<Rightarrow> pyexc + json" where
  "extract_items response =
     (case response_json response of
        Inl x \<Rightarrow> Inl x
      | Inr j \<Rightarrow> py_getitem j ''items'')"

text \<open>
  The body of \<open>query_robots\<close>. The \<^verbatim>\<open>try\<close> covers \<^verbatim>\<open>response.json()["items"]\<close>: whatever that
  raises is turned into a \<open>FormantClientRequestError\<close> built from the message alone.
\<close>

definition query_robots_body :: "backend \<Rightarrow> json \<Rightarrow> bool \<Rightarrow> json action" where
  "query_robots_body be tags enabled_only w =
     (case get_authenticated_headers be w of
        None \<Rightarrow> None
      | Some (Inl e, w1) \<Rightarrow> Some (Inl e, w1)
      | Some (Inr hdrs, w1) \<Rightarrow>
          (case requests_post be (query_request (client w1) hdrs tags enabled_only) w1 of
             (Inl x, w2) \<Rightarrow> Some (Inl (Other x), w2)
           | (Inr response, w2) \<Rightarrow>
               if status_code response = 200 then
                 (case extract_items response of
                    Inr items \<Rightarrow> Some (Inr items, w2)
                  | Inl x \<Rightarrow>
                      Some (Inl (FormantErr (new_error
                        (''Failed to query robots: '' @ pyexc_str x))), w2))
               else
                 Some (Inl (FormantErr (new_error
                   (''Failed to query robots... '' @ response_text response))), w2)))"

definition query_robots :: "backend \<Rightarrow> json \<Rightarrow> bool \<Rightarrow> json option action" where
  "query_robots be tags enabled_only =
     formant_client_retry_on_failure NUM_RETRIES True (query_robots_body be tags enabled_only)"

section \<open>The paginated fetch\<close>

definition page_request ::
  "string \<Rightarrow> (string \<times> string) list \<Rightarrow> string \<Rightarrow> int \<Rightarrow> int \<Rightarrow> request" where
  "page_request endpoint hdrs deviceId page_size page_offset =
     \<lparr>url = endpoint,
      headers = Some hdrs,
      json_body = JObj [(''eventTypes'', JList [JStr ''task-summary'']),
                        (''count'', JNum page_size),
                        (''offset'', JNum page_offset),
                        (''deviceIds'', JList [JStr deviceId])]\<rparr>"

text \<open>
  The \<^verbatim>\<open>while 1\<close> loop of \<open>get_task_list_for_device_sync\<close>, from the state at the head of
  an iteration. It need not end: the value \<open>None\<close> stands for a loop that runs forever.
  On a status other than 200 the message of the error is formatted first, and
  \<^verbatim>\<open>response.status\<close> is evaluated in it before \<^verbatim>\<open>response.text\<close>. On a status of 200
  \<^verbatim>\<open>response.json()["items"]\<close> is evaluated twice, for \<^verbatim>\<open>extend\<close> and for \<^verbatim>\<open>len\<close>.
\<close>

partial_function (option) task_loop ::
  "backend \<Rightarrow> string \<Rightarrow> string \<Rightarrow> int \<Rightarrow> int \<Rightarrow> json list \<Rightarrow> world \<Rightarrow>
     ((exn + json list) \<times> world) option" where
  "task_loop be endpoint deviceId page_size page_offset task_summaries w =
     (case get_authenticated_headers be w of
        None \<Rightarrow> None
      | Some (Inl e, w1) \<Rightarrow> Some (Inl e, w1)
      | Some (Inr hdrs, w1) \<Rightarrow>
          (case requests_post be (page_request endpoint hdrs deviceId page_size page_offset) w1 of
             (Inl x, w2) \<Rightarrow> Some (Inl (Other x), w2)
           | (Inr response, w2) \<Rightarrow>
               if status_code response \<noteq> 200 then
                 (case response_status response of
                    Inl x \<Rightarrow> Some (Inl (Other x), w2)
                  | Inr code \<Rightarrow>
                      Some (Inl (FormantErr (new_error
                        (''Failed to get task summaries... code: '' @ str_int code @
                         ''. error: '' @ response_text response))), w2))
               else
                 (case extract_items response of
                    Inl x \<Rightarrow> Some (Inl (Other x), w2)
                  | Inr items \<Rightarrow>
                      (case py_iter items of
                         Inl x \<Rightarrow> Some (Inl (Other x), w2)
                       | Inr new_items \<Rightarrow>
                           (case extract_items response of
                              Inl x \<Rightarrow> Some (Inl (Other x), w2)
                            | Inr items_again \<Rightarrow>
                                (case py_len items_again of
                                   Inl x \<Rightarrow> Some (Inl (Other x), w2)
                                 | Inr n \<Rightarrow>
                                     if n < page_size then Some (Inr (task_summaries @ new_items), w2)
                                     else task_loop be endpoint deviceId page_size
                                            (page_offset + page_size)
                                            (task_summaries @ new_items) w2))))))"

definition get_task_list_for_device_sync_body :: "backend \<Rightarrow> string \<Rightarrow> json list action" where
  "get_task_list_for_device_sync_body be deviceId w =
     task_loop be (get_get_admin_endpoint (client w) ''/events/query'') deviceId 100 0 [] w"

definition get_task_list_for_device_sync :: "backend \<Rightarrow> string \<Rightarrow> json list option action" where
  "get_task_list_for_device_sync be deviceId =
     formant_client_retry_on_failure NUM_RETRIES True (get_task_list_for_device_sync_body be deviceId)"

section \<open>Vocabulary of the properties\<close>

text \<open>
  \<open>retried func max_retries i es w w'\<close>: from the world \<open>w\<close>, with \<open>i\<close> the index of the
  coming attempt, the successive invocations of \<open>func\<close> raise the retryable errors \<open>es\<close>, the
  wrapper's warning is logged after each, and the world is then \<open>w'\<close>.
\<close>

fun retried ::
  "'a action \<Rightarrow> int \<Rightarrow> int \<Rightarrow> FormantClientRequestError list \<Rightarrow> world \<Rightarrow> world \<Rightarrow> bool" where
  "retried func max_retries i [] w w' = (w' = w)"
| "retried func max_retries i (e # es) w w' =
     (case func w of
        Some (Inl (FormantErr e'), w1) \<Rightarrow>
          e' = e \<and> retryable e \<and>
          retried func max_retries (i + 1) es (logging_warning (retry_message e i max_retries) w1) w'
      | _ \<Rightarrow> False)"

text \<open>The warnings the wrapper logs for the errors \<open>es\<close>, the first at attempt index \<open>i\<close>.\<close>

fun retry_messages :: "int \<Rightarrow> int \<Rightarrow> FormantClientRequestError list \<Rightarrow> string list" where
  "retry_messages max_retries i [] = []"
| "retry_messages max_retries i (e # es) =
     retry_message e i max_retries # retry_messages max_retries (i + 1) es"

text \<open>An operation that logs no warning of its own.\<close>

definition quiet :: "'a action \<Rightarrow> bool" where
  "quiet func = (\<forall>w r w'. func w = Some (r, w') \<longrightarrow> warnings w' = warnings w)"

text \<open>
  A successful page: status 200 and a body whose \<open>items\<close> is the list \<open>p\<close>.
\<close>

definition is_page :: "response \<Rightarrow> json list \<Rightarrow> bool" where
  "is_page r p = (status_code r = 200 \<and> extract_items r = Inr (JList p))"

text \<open>
  \<open>pages_served be hist req page_size off ps\<close>: after the requests \<open>hist\<close>, the backend
  answers the request for offset \<open>off\<close> with the page \<open>hd ps\<close>, then the request for the
  next offset with the next page, and so on through \<open>ps\<close>.
\<close>

fun pages_served ::
  "backend \<Rightarrow> request list \<Rightarrow> (int \<Rightarrow> request) \<Rightarrow> int \<Rightarrow> int \<Rightarrow> json list list \<Rightarrow> bool" where
  "pages_served be hist req page_size off [] = True"
| "pages_served be hist req page_size off (p # ps) =
     ((case be (hist @ [req off]) of Inr r \<Rightarrow> is_page r p | Inl x \<Rightarrow> False) \<and>
      pages_served be (hist @ [req off]) req page_size (off + page_size) ps)"

text \<open>The first \<open>n\<close> offsets from \<open>off\<close> in steps of \<open>page_size\<close>.\<close>

fun offsets :: "int \<Rightarrow> int \<Rightarrow> nat \<Rightarrow> int list" where
  "offsets page_size off 0 = []"
| "offsets page_size off (Suc n) = off # offsets page_size (off + page_size) n"

text \<open>
  The methods of \<open>FormantClient\<close> a caller can invoke on an existing client, with their
  arguments, and what a call leaves behind: the exception it raised, if any, and the world.
  The value a call returns is dropped here.
\<close>

datatype call =
    Get_get_admin_endpoint string
  | Authenticate
  | Get_authenticated_headers
  | Query_robots json bool
  | Get_task_list_for_device_sync string

fun raised :: "((exn + 'a) \<times> world) option \<Rightarrow> (exn option \<times> world) option" where
  "raised None = None"
| "raised (Some (Inl e, w)) = Some (Some e, w)"
| "raised (Some (Inr v, w)) = Some (None, w)"

fun run_call :: "backend \<Rightarrow> call \<Rightarrow> world \<Rightarrow> (exn option \<times> world) option" where
  "run_call be (Get_get_admin_endpoint path) w = Some (None, w)"
| "run_call be Authenticate w = raised (authenticate be w)"
| "run_call be Get_authenticated_headers w = raised (get_authenticated_headers be w)"
| "run_call be (Query_robots tags enabled_only) w = raised (query_robots be tags enabled_only w)"
| "run_call be (Get_task_list_for_device_sync deviceId) w =
     raised (get_task_list_for_device_sync be deviceId w)"

text \<open>
  A caller making the calls \<open>cs\<close> one after the other, going on after a call that raised.
  The result is the world after the last call, or \<open>None\<close> if one of them does not return.
\<close>

fun run_calls :: "backend \<Rightarrow> call list \<Rightarrow> world \<Rightarrow> world option" where
  "run_calls be [] w = Some w"
| "run_calls be (c # cs) w =
     (case run_call be c w of
        None \<Rightarrow> None
      | Some (x, w1) \<Rightarrow> run_calls be cs w1)"

text \<open>The number of login requests among the requests \<open>rs\<close>.\<close>

definition logins :: "FormantClient \<Rightarrow> request list \<Rightarrow> nat" where
  "logins self rs = length (filter (\<lambda>r. url r = get_get_admin_endpoint self ''/auth/login'') rs)"

text \<open>
  \<open>cached c k w\<close>: in the world \<open>w\<close> the client is \<open>c\<close>, its cached headers are not empty, and
  \<open>k\<close> login requests have been sent so far.
\<close>

definition cached :: "FormantClient \<Rightarrow> nat \<Rightarrow> world \<Rightarrow> bool" where
  "cached c k w = (client w = c \<and> authenticated_headers c \<noteq> [] \<and> logins c (sent w) = k)"

section \<open>Concrete clients and backends\<close>

definition demo_client :: FormantClient where
  "demo_client = FormantClient_init ''https://api.example'' ''ops@example.com'' ''secret''"

definition demo_world :: world where
  "demo_world = \<lparr>client = demo_client, sent = [], warnings = []\<rparr>"

definition busy_response :: response where
  "busy_response =
     \<lparr>status_code = 503, response_text = ''busy'',
      response_json = Inl (JSONDecodeError ''Expecting value'')\<rparr>"

definition login_response :: "string \<Rightarrow> response" where
  "login_response token =
     \<lparr>status_code = 200, response_text = ''ok'',
      response_json = Inr (JObj [(''authentication'', JObj [(''accessToken'', JStr token)])])\<rparr>"

text \<open>A backend that is always busy, and one that is busy for the first two requests.\<close>

definition down_backend :: backend where
  "down_backend rs = Inr busy_response"

definition flaky_backend :: backend where
  "flaky_backend rs = (if length rs \<le> 2 then Inr busy_response else Inr (login_response ''t0k''))"

definition busy_error :: FormantClientRequestError where
  "busy_error = \<lparr>message = ''Failed to authenticate... busy'', retryable = True\<rparr>"

text \<open>An operation that raises an error marked as not retryable, and changes nothing.\<close>

definition rejecting :: "unit action" where
  "rejecting w =
     Some (Inl (FormantErr (FormantClientRequestError_init ''bad credentials'' False)), w)"

text \<open>
  The worlds the flaky backend leaves after two failed logins and after the third, and the
  world the busy backend leaves after five.
\<close>

definition w_flaky1 :: world where
  "w_flaky1 = demo_world\<lparr>sent := [login_request demo_client, login_request demo_client],
     warnings := retry_messages 5 0 [busy_error, busy_error]\<rparr>"

definition w_flaky2 :: world where
  "w_flaky2 = w_flaky1\<lparr>
     client := demo_client\<lparr>authenticated_headers :=
       [(''authorization'', ''Bearer t0k''), (''content-type'', ''application/json'')]\<rparr>,
     sent := replicate 3 (login_request demo_client)\<rparr>"

definition w_down :: world where
  "w_down = demo_world\<lparr>sent := replicate 5 (login_request demo_client),
     warnings := retry_messages 5 0 (replicate 5 busy_error)\<rparr>"

text \<open>A client that has logged in, and a backend whose bodies do not decode.\<close>

definition authed_world :: world where
  "authed_world =
     demo_world\<lparr>client := demo_client\<lparr>authenticated_headers :=
       [(''authorization'', ''Bearer t0k''), (''content-type'', ''application/json'')]\<rparr>\<rparr>"

definition garbled_response :: response where
  "garbled_response =
     \<lparr>status_code = 200, response_text = ''<html>'',
      response_json = Inl (JSONDecodeError ''Expecting value'')\<rparr>"

definition garbled_backend :: backend where
  "garbled_backend rs = Inr garbled_response"

text \<open>
  A backend that holds \<open>n_events\<close> events, numbered from 0, and serves the slice a request
  asks for by its \<open>offset\<close> and \<open>count\<close>.
\<close>

definition int_field :: "request \<Rightarrow> string \<Rightarrow> int" where
  "int_field r k =
     (case json_body r of
        JObj kvs \<Rightarrow> (case map_of kvs k of Some (JNum n) \<Rightarrow> n | _ \<Rightarrow> 0)
      | _ \<Rightarrow> 0)"

definition events :: "nat \<Rightarrow> nat \<Rightarrow> json list" where
  "events a b = map (\<lambda>i. JNum (int i)) [a..<b]"

definition page_response :: "json list \<Rightarrow> response" where
  "page_response p =
     \<lparr>status_code = 200, response_text = ''ok'',
      response_json = Inr (JObj [(''items'', JList p)])\<rparr>"

definition paged_backend :: "nat \<Rightarrow> backend" where
  "paged_backend n_events rs =
     (let off = nat (int_field (last rs) ''offset'');
          cnt = nat (int_field (last rs) ''count'')
      in Inr (page_response (events (min off n_events) (min (off + cnt) n_events))))"

text \<open>A backend that accepts every login.\<close>

definition login_backend :: backend where
  "login_backend rs = Inr (login_response ''t0k'')"

text \<open>
  The world after the first login of the demo client, and the world after a logged-in client
  has fetched one empty page.
\<close>

definition w_logged_in :: world where
  "w_logged_in =
     demo_world\<lparr>client := (client demo_world)\<lparr>authenticated_headers :=
                   [(''authorization'', ''Bearer t0k''), (''content-type'', ''application/json'')]\<rparr>,
       sent := sent demo_world @ [login_request (client demo_world)]\<rparr>"

definition w_one_page :: world where
  "w_one_page =
     authed_world\<lparr>sent := sent authed_world @
       [page_request (get_get_admin_endpoint (client authed_world) ''/events/query'')
          (authenticated_headers (client authed_world)) ''dev-1'' 100 0]\<rparr>"

section \<open>The retry decorator: properties\<close>

lemma retried_Cons:
  assumes "retried func n i (e # es) w w'"
  shows "\<exists>w1. func w = Some (Inl (FormantErr e), w1) \<and> retryable e \<and>
        retried func n (i + 1) es (logging_warning (retry_message e i n) w1) w'"
proof (cases "func w")
  case None
  with assms show ?thesis by simp
next
  case (Some p)
  obtain r0 w1 where p: "p = (r0, w1)" by (cases p)
  show ?thesis
  proof (cases r0)
    case (Inl x)
    with assms Some p show ?thesis by (cases x) auto
  next
    case (Inr v)
    with assms Some p show ?thesis by simp
  qed
qed

lemma retried_loop:
  "retried func n (int a) es w w1 \<Longrightarrow>
   wrapper_loop n func (map int [a..<a + length es + m]) w =
   wrapper_loop n func (map int [a + length es..<a + length es + m]) w1"
proof (induction es arbitrary: a w)
  case Nil
  then show ?case by simp
next
  case (Cons e es)
  from retried_Cons [OF Cons.prems] obtain w2 where
    f: "func w = Some (Inl (FormantErr e), w2)" and r: "retryable e" and
    rest: "retried func n (int (Suc a)) es (logging_warning (retry_message e (int a) n) w2) w1"
    by (auto simp: add.commute)
  have "a < a + length (e # es) + m" by simp
  then have "[a..<a + length (e # es) + m] = a # [Suc a..<a + length (e # es) + m]"
    by (rule upt_conv_Cons)
  then have "[a..<a + length (e # es) + m] = a # [Suc a..<Suc a + length es + m]"
    by simp
  then show ?case
    using f r Cons.IH [OF rest] by simp
qed

lemma retried_range:
  assumes "retried func n 0 es w w1" and "int (length es) \<le> n"
  shows "wrapper_loop n func (py_range n) w =
         wrapper_loop n func (map int [length es..<nat n]) w1"
proof -
  from assms(2) obtain m where m: "nat n = length es + m"
    by (metis le_add_diff_inverse nat_int nat_mono)
  show ?thesis
    using retried_loop [of func n 0 es w w1 m] assms(1) by (simp add: py_range_def m)
qed

lemma retried_warnings:
  "retried func n i es w w1 \<Longrightarrow> quiet func \<Longrightarrow>
   warnings w1 = warnings w @ retry_messages n i es"
proof (induction es arbitrary: i w)
  case Nil
  then show ?case by simp
next
  case (Cons e es)
  from retried_Cons [OF Cons.prems(1)] obtain w2 where
    f: "func w = Some (Inl (FormantErr e), w2)" and
    rest: "retried func n (i + 1) es (logging_warning (retry_message e i n) w2) w1"
    by auto
  from f Cons.prems(2) have "warnings w2 = warnings w" by (auto simp: quiet_def)
  with Cons.IH [OF rest Cons.prems(2)] show ?case by (simp add: logging_warning_def)
qed

lemma length_retry_messages: "length (retry_messages n i es) = length es"
  by (induction es arbitrary: i) auto

lemma retries_exhausted:
  assumes "retried func n 0 es w w1" and "int (length es) = n"
  shows "formant_client_retry_on_failure n True func w =
           Some (Inl (FormantErr (exhausted_error n)), w1)"
proof -
  from retried_range [OF assms(1)] assms(2)
  have "wrapper_loop n func (py_range n) w = Some (Fell_through, w1)" by simp
  then show ?thesis
    by (simp add: formant_client_retry_on_failure_def)
qed

lemma str_int_small [simp]:
  "str_int 1 = ''1''" "str_int 2 = ''2''" "str_int 3 = ''3''" "str_int 4 = ''4''"
  "str_int 5 = ''5''"
  by (simp_all add: str_int_def digits10.simps digit_char_def)

lemma authenticate_body_quiet: "quiet (authenticate_body be)"
  by (auto simp: quiet_def authenticate_body_def requests_post_def
      split: if_splits sum.splits prod.splits)

lemma flaky_retried:
  "retried (authenticate_body flaky_backend) 5 0 [busy_error, busy_error] demo_world w_flaky1"
  by (simp add: authenticate_body_def requests_post_def flaky_backend_def demo_world_def
    demo_client_def FormantClient_init_def busy_response_def busy_error_def new_error_def
    FormantClientRequestError_init_def retryable_default_def logging_warning_def w_flaky1_def)

lemma flaky_success:
  "authenticate_body flaky_backend w_flaky1 = Some (Inr (), w_flaky2)"
  by (simp add: authenticate_body_def requests_post_def flaky_backend_def demo_world_def
    demo_client_def FormantClient_init_def login_response_def py_str_def
    w_flaky1_def w_flaky2_def numeral_3_eq_3)

lemma down_retried:
  "retried (authenticate_body down_backend) 5 0 (replicate 5 busy_error) demo_world w_down"
  by (simp add: authenticate_body_def requests_post_def down_backend_def demo_world_def
    demo_client_def FormantClient_init_def busy_response_def busy_error_def new_error_def
    FormantClientRequestError_init_def retryable_default_def logging_warning_def w_down_def
    numeral_eq_Suc)

text \<open>
  Claim C2. For every \<open>max_retries = n\<close> and every operation that raises a retryable
  \<open>FormantClientRequestError\<close> on its first \<open>k < n\<close> invocations and returns \<open>v\<close> on the
  next, the wrapper returns \<open>v\<close>. The log is shared with the operation, so the count is
  stated for an operation that logs nothing itself: the warnings logged are then exactly the
  \<open>k\<close> warnings of the retried attempts, one for each, in order.
\<close>

theorem retry_succeeds_after_k:
  assumes "retried func n 0 es w w1" and "func w1 = Some (Inr v, w')" and "int (length es) < n"
  shows "formant_client_retry_on_failure n propegrate_error func w = Some (Inr (Some v), w') \<and>
         (quiet func \<longrightarrow>
            warnings w' = warnings w @ retry_messages n 0 es \<and>
            length (warnings w') = length (warnings w) + length es)"
proof -
  from assms(3) have "[length es..<nat n] = length es # [Suc (length es)..<nat n]"
    by (simp add: upt_conv_Cons)
  with retried_range [OF assms(1)] assms(2,3)
  have "wrapper_loop n func (py_range n) w = Some (Returned v, w')" by simp
  then have r: "formant_client_retry_on_failure n propegrate_error func w = Some (Inr (Some v), w')"
    by (simp add: formant_client_retry_on_failure_def)
  have "warnings w' = warnings w @ retry_messages n 0 es" if q: "quiet func"
  proof -
    from assms(2) q have "warnings w' = warnings w1" by (auto simp: quiet_def)
    with retried_warnings [OF assms(1) q] show ?thesis by simp
  qed
  with r show ?thesis
    by (simp add: length_retry_messages)
qed

theorem retry_succeeds_after_k_witness:
  "retried (authenticate_body flaky_backend) 5 0 [busy_error, busy_error] demo_world w_flaky1 \<and>
   authenticate_body flaky_backend w_flaky1 = Some (Inr (), w_flaky2) \<and>
   int (length [busy_error, busy_error]) < 5 \<and>
   quiet (authenticate_body flaky_backend) \<and>
   formant_client_retry_on_failure 5 True (authenticate_body flaky_backend) demo_world =
     Some (Inr (Some ()), w_flaky2) \<and>
   warnings w_flaky2 = warnings demo_world @ retry_messages 5 0 [busy_error, busy_error] \<and>
   length (warnings w_flaky2) = length (warnings demo_world) + 2"
  using retry_succeeds_after_k [OF flaky_retried flaky_success, of True]
    flaky_retried flaky_success authenticate_body_quiet
  by simp

text \<open>
  Claim C8. When an invocation of the wrapped operation raises a
  \<open>FormantClientRequestError\<close> whose \<open>retryable\<close> field is false, at the first attempt or
  after any number of retried ones, the wrapper raises that same error and the world is the
  one that invocation left: the operation is not invoked again and no warning is logged for
  it, however many attempts remain.
\<close>

theorem nonretryable_raised_at_once:
  assumes "retried func n 0 es w w1" and "func w1 = Some (Inl (FormantErr e), w2)"
    and "\<not> retryable e" and "int (length es) < n"
  shows "formant_client_retry_on_failure n propegrate_error func w = Some (Inl (FormantErr e), w2)"
proof -
  from assms(4) have "[length es..<nat n] = length es # [Suc (length es)..<nat n]"
    by (simp add: upt_conv_Cons)
  with retried_range [OF assms(1)] assms(2,3,4)
  have "wrapper_loop n func (py_range n) w = Some (Raised (FormantErr e), w2)" by simp
  then show ?thesis
    by (simp add: formant_client_retry_on_failure_def)
qed

theorem nonretryable_raised_at_once_witness:
  "retried rejecting 5 0 [] demo_world demo_world \<and>
   rejecting demo_world =
     Some (Inl (FormantErr \<lparr>message = ''bad credentials'', retryable = False\<rparr>), demo_world) \<and>
   \<not> retryable \<lparr>message = ''bad credentials'', retryable = False\<rparr> \<and>
   int (length ([] :: FormantClientRequestError list)) < 5 \<and>
   formant_client_retry_on_failure 5 True rejecting demo_world =
     Some (Inl (FormantErr \<lparr>message = ''bad credentials'', retryable = False\<rparr>), demo_world)"
  using nonretryable_raised_at_once [of rejecting 5 "[]" demo_world demo_world
      "\<lparr>message = ''bad credentials'', retryable = False\<rparr>" demo_world True]
  by (simp add: rejecting_def FormantClientRequestError_init_def)

text \<open>
  Claim C3, as the code has it. When all \<open>max_retries\<close> invocations raise retryable errors
  the wrapper raises the error \<open>Request failed after n retries\<close>, built from the message
  alone, and its \<open>retryable\<close> field is \<open>True\<close>, the default of the constructor.
\<close>

theorem exhausted_is_retryable:
  assumes "retried func n 0 es w w1" and "int (length es) = n"
  shows "formant_client_retry_on_failure n True func w =
           Some (Inl (FormantErr (exhausted_error n)), w1) \<and>
         retryable (exhausted_error n) = True"
  using retries_exhausted [OF assms]
  by (simp add: exhausted_error_def new_error_def FormantClientRequestError_init_def
      retryable_default_def)

theorem exhausted_is_retryable_witness:
  "retried (authenticate_body down_backend) 5 0 (replicate 5 busy_error) demo_world w_down \<and>
   int (length (replicate 5 busy_error)) = 5 \<and>
   formant_client_retry_on_failure 5 True (authenticate_body down_backend) demo_world =
     Some (Inl (FormantErr (exhausted_error 5)), w_down) \<and>
   retryable (exhausted_error 5) = True"
  using exhausted_is_retryable [OF down_retried] down_retried by simp

text \<open>
  Claim C3 as stated fails: with a backend that is always busy, the five logins of
  \<open>_authenticate\<close> fail and the error the wrapper raises is retryable.
\<close>

theorem exhausted_not_retryable_counterexample:
  "map_option fst
     (formant_client_retry_on_failure 5 True (authenticate_body down_backend) demo_world) =
   Some (Inl (FormantErr \<lparr>message = ''Request failed after 5 retries'', retryable = True\<rparr>))"
proof -
  have "formant_client_retry_on_failure 5 True (authenticate_body down_backend) demo_world =
     Some (Inl (FormantErr (exhausted_error 5)), w_down)"
    using retries_exhausted [OF down_retried] by simp
  then show ?thesis
    by (simp add: exhausted_error_def new_error_def FormantClientRequestError_init_def
        retryable_default_def)
qed

section \<open>Cached headers\<close>

lemma py_range_NUM_RETRIES: "py_range NUM_RETRIES = [0, 1, 2, 3, 4]"
  by (simp add: py_range_def NUM_RETRIES_def upt_rec)

lemma authenticate_cached:
  "authenticated_headers (client w) \<noteq> [] \<Longrightarrow> authenticate be w = Some (Inr (Some ()), w)"
  by (simp add: authenticate_def formant_client_retry_on_failure_def py_range_NUM_RETRIES
      authenticate_body_def)

lemma get_authenticated_headers_cached:
  "authenticated_headers (client w) \<noteq> [] \<Longrightarrow>
   get_authenticated_headers be w = Some (Inr (authenticated_headers (client w)), w)"
  by (simp add: get_authenticated_headers_def authenticate_cached)

lemma authed_headers: "authenticated_headers (client authed_world) \<noteq> []"
  by (simp add: authed_world_def)

lemma wrapper_Other:
  "func w = Some (Inl (Other x), w1) \<Longrightarrow>
   formant_client_retry_on_failure NUM_RETRIES p func w = Some (Inl (Other x), w1)"
  by (simp add: formant_client_retry_on_failure_def py_range_NUM_RETRIES)

section \<open>The errors of a query\<close>

lemma garbled_items: "extract_items garbled_response = Inl (JSONDecodeError ''Expecting value'')"
  by (simp add: extract_items_def garbled_response_def)

lemma garbled_status: "status_code garbled_response = 200"
  by (simp add: garbled_response_def)

text \<open>
  Claim C5, as the code has it. Once the headers are obtained and the backend has answered
  the query, the body of \<open>query_robots\<close> raises a \<open>FormantClientRequestError\<close> whose
  \<open>retryable\<close> field is \<open>True\<close> in both cases: when the status is 200 and extracting the
  items raises (the message carries that exception's text), and when the status is not 200
  (the message carries the response body).
\<close>

theorem query_robots_errors_retryable:
  assumes "get_authenticated_headers be w = Some (Inr hdrs, w1)"
    and "be (sent w1 @ [query_request (client w1) hdrs tags enabled_only]) = Inr r"
  shows "(status_code r = 200 \<and> extract_items r = Inl x \<longrightarrow>
            query_robots_body be tags enabled_only w =
              Some (Inl (FormantErr \<lparr>message = ''Failed to query robots: '' @ pyexc_str x,
                                     retryable = True\<rparr>),
                    w1\<lparr>sent := sent w1 @ [query_request (client w1) hdrs tags enabled_only]\<rparr>)) \<and>
         (status_code r \<noteq> 200 \<longrightarrow>
            query_robots_body be tags enabled_only w =
              Some (Inl (FormantErr \<lparr>message = ''Failed to query robots... '' @ response_text r,
                                     retryable = True\<rparr>),
                    w1\<lparr>sent := sent w1 @ [query_request (client w1) hdrs tags enabled_only]\<rparr>))"
  using assms
  by (simp add: query_robots_body_def requests_post_def new_error_def
      FormantClientRequestError_init_def retryable_default_def)

theorem query_robots_errors_retryable_witness:
  "get_authenticated_headers garbled_backend authed_world =
     Some (Inr (authenticated_headers (client authed_world)), authed_world) \<and>
   garbled_backend (sent authed_world @
      [query_request (client authed_world) (authenticated_headers (client authed_world))
         (JObj []) False]) = Inr garbled_response \<and>
   status_code garbled_response = 200 \<and>
   extract_items garbled_response = Inl (JSONDecodeError ''Expecting value'') \<and>
   query_robots_body garbled_backend (JObj []) False authed_world =
     Some (Inl (FormantErr \<lparr>message = ''Failed to query robots: Expecting value'',
                            retryable = True\<rparr>),
           authed_world\<lparr>sent := sent authed_world @
             [query_request (client authed_world) (authenticated_headers (client authed_world))
                (JObj []) False]\<rparr>)"
  using query_robots_errors_retryable [OF get_authenticated_headers_cached [OF authed_headers],
      of garbled_backend "JObj []" False garbled_response "JSONDecodeError ''Expecting value''"]
    get_authenticated_headers_cached [OF authed_headers, of garbled_backend] garbled_items
  by (simp add: garbled_backend_def garbled_response_def)

text \<open>
  Claim C5 as stated fails: a response with status 200 whose body does not decode gives an
  error that is retryable.
\<close>

theorem query_robots_malformed_counterexample:
  "map_option fst (query_robots_body garbled_backend (JObj []) False authed_world) =
     Some (Inl (FormantErr \<lparr>message = ''Failed to query robots: Expecting value'',
                            retryable = True\<rparr>))"
  by (simp add: query_robots_body_def get_authenticated_headers_cached [OF authed_headers]
      requests_post_def garbled_backend_def garbled_items garbled_status new_error_def
      FormantClientRequestError_init_def retryable_default_def)

section \<open>A page that fails\<close>

lemma task_loop_non200:
  assumes "authenticated_headers (client w) \<noteq> []"
    and "be (sent w @ [page_request endpoint (authenticated_headers (client w)) dev psize off]) = Inr r"
    and "status_code r \<noteq> 200"
  shows "task_loop be endpoint dev psize off acc w =
     Some (Inl (Other (AttributeError ''Response object has no attribute status'')),
           w\<lparr>sent := sent w @ [page_request endpoint (authenticated_headers (client w)) dev psize off]\<rparr>)"
  by (subst task_loop.simps)
     (simp add: get_authenticated_headers_cached assms requests_post_def response_status_def)

text \<open>
  Claim C6 at a failing input. The client is logged in and the backend answers the first
  page request with status 503 and the body \<open>busy\<close>. The call raises the \<open>AttributeError\<close>
  of \<^verbatim>\<open>response.status\<close>: no \<open>FormantClientRequestError\<close> is built, the body \<open>busy\<close> is
  in no message, and the wrapper does not retry.
\<close>

theorem page_failure_raises_AttributeError:
  "get_task_list_for_device_sync down_backend ''dev-1'' authed_world =
     Some (Inl (Other (AttributeError ''Response object has no attribute status'')),
           authed_world\<lparr>sent :=
             [page_request ''https://api.example/events/query''
                [(''authorization'', ''Bearer t0k''), (''content-type'', ''application/json'')]
                ''dev-1'' 100 0]\<rparr>)"
proof -
  have "get_task_list_for_device_sync_body down_backend ''dev-1'' authed_world =
     Some (Inl (Other (AttributeError ''Response object has no attribute status'')),
           authed_world\<lparr>sent := sent authed_world @
             [page_request (get_get_admin_endpoint (client authed_world) ''/events/query'')
                (authenticated_headers (client authed_world)) ''dev-1'' 100 0]\<rparr>)"
    unfolding get_task_list_for_device_sync_body_def
    by (rule task_loop_non200 [OF authed_headers, where r = busy_response])
       (simp_all add: down_backend_def busy_response_def)
  from wrapper_Other [of "get_task_list_for_device_sync_body down_backend ''dev-1''", OF this]
  show ?thesis
    by (simp add: get_task_list_for_device_sync_def authed_world_def demo_world_def
        demo_client_def FormantClient_init_def get_get_admin_endpoint_def)
qed

section \<open>Obtaining the headers\<close>

lemma wrapper_loop_Returned:
  "wrapper_loop n func js w = Some (Returned v, w1) \<Longrightarrow> \<exists>w0. func w0 = Some (Inr v, w1)"
proof (induction js arbitrary: w)
  case Nil
  then show ?case by simp
next
  case (Cons j js)
  show ?case
  proof (cases "func w")
    case None
    with Cons.prems show ?thesis by simp
  next
    case (Some pr)
    obtain r0 w2 where pr: "pr = (r0, w2)" by (cases pr)
    show ?thesis
    proof (cases r0)
      case (Inr v')
      with Cons.prems Some pr show ?thesis by auto
    next
      case (Inl x)
      show ?thesis
      proof (cases x)
        case (Other y)
        with Cons.prems Some pr Inl show ?thesis by simp
      next
        case (FormantErr e)
        with Cons.prems Some pr Inl show ?thesis
          by (cases "retryable e") (auto dest: Cons.IH)
      qed
    qed
  qed
qed

lemma wrapper_Inr:
  assumes "formant_client_retry_on_failure n True func w = Some (Inr u, w1)"
  shows "\<exists>w0 v. u = Some v \<and> func w0 = Some (Inr v, w1)"
proof -
  from assms obtain v where "u = Some v"
    and "wrapper_loop n func (py_range n) w = Some (Returned v, w1)"
    by (auto simp: formant_client_retry_on_failure_def
        split: option.splits prod.splits loop_exit.splits)
  with wrapper_loop_Returned [of n func "py_range n" w v w1] show ?thesis by auto
qed

lemma authenticate_body_Inr:
  "authenticate_body be w0 = Some (Inr u, w1) \<Longrightarrow> authenticated_headers (client w1) \<noteq> []"
  by (auto simp: authenticate_body_def requests_post_def
      split: if_splits sum.splits prod.splits)

lemma get_authenticated_headers_Inr:
  assumes "get_authenticated_headers be w = Some (Inr hdrs, w1)"
  shows "hdrs = authenticated_headers (client w1) \<and> hdrs \<noteq> []"
proof -
  from assms obtain u where a: "authenticate be w = Some (Inr u, w1)"
    and h: "hdrs = authenticated_headers (client w1)"
    by (auto simp: get_authenticated_headers_def split: option.splits prod.splits sum.splits)
  from wrapper_Inr [OF a [unfolded authenticate_def]] obtain w0 v
    where "authenticate_body be w0 = Some (Inr v, w1)" by auto
  from authenticate_body_Inr [OF this] h show ?thesis by simp
qed

lemma wrapper_returns:
  "func w = Some (Inr v, w1) \<Longrightarrow>
   formant_client_retry_on_failure NUM_RETRIES p func w = Some (Inr (Some v), w1)"
  by (simp add: formant_client_retry_on_failure_def py_range_NUM_RETRIES)

section \<open>The paginated fetch: properties\<close>

lemma is_page_iter: "is_page r p \<Longrightarrow> status_code r = 200 \<and> extract_items r = Inr (JList p)"
  by (simp add: is_page_def)

lemma task_loop_pages:
  assumes "authenticated_headers (client w) \<noteq> []"
    and "pages_served be (sent w)
           (page_request endpoint (authenticated_headers (client w)) dev psize) psize off (ps @ [p])"
    and "\<forall>q\<in>set ps. psize \<le> int (length q)"
    and "int (length p) < psize"
  shows "task_loop be endpoint dev psize off acc w =
     Some (Inr (acc @ concat ps @ p),
           w\<lparr>sent := sent w @
             map (page_request endpoint (authenticated_headers (client w)) dev psize)
               (offsets psize off (Suc (length ps)))\<rparr>)"
  using assms
proof (induction ps arbitrary: off acc w)
  case Nil
  let ?rq = "page_request endpoint (authenticated_headers (client w)) dev psize off"
  from Nil.prems(2) obtain r where r: "be (sent w @ [?rq]) = Inr r" and pg: "is_page r p"
    by (auto split: sum.splits)
  show ?case
    by (subst task_loop.simps)
       (use Nil.prems(1,4) r is_page_iter [OF pg] in
         \<open>simp add: get_authenticated_headers_cached requests_post_def\<close>)
next
  case (Cons q ps)
  let ?rq = "page_request endpoint (authenticated_headers (client w)) dev psize off"
  let ?w2 = "w\<lparr>sent := sent w @ [?rq]\<rparr>"
  from Cons.prems(2) obtain r where r: "be (sent w @ [?rq]) = Inr r" and pg: "is_page r q"
    and rest: "pages_served be (sent w @ [?rq])
           (page_request endpoint (authenticated_headers (client w)) dev psize) psize
           (off + psize) (ps @ [p])"
    by (auto split: sum.splits)
  from Cons.prems(3) have full: "\<not> int (length q) < psize" by simp
  have step: "task_loop be endpoint dev psize off acc w =
              task_loop be endpoint dev psize (off + psize) (acc @ q) ?w2"
    by (subst task_loop.simps)
       (use Cons.prems(1) r is_page_iter [OF pg] full in
         \<open>simp add: get_authenticated_headers_cached requests_post_def\<close>)
  have "task_loop be endpoint dev psize (off + psize) (acc @ q) ?w2 =
     Some (Inr ((acc @ q) @ concat ps @ p),
           ?w2\<lparr>sent := sent ?w2 @
             map (page_request endpoint (authenticated_headers (client ?w2)) dev psize)
               (offsets psize (off + psize) (Suc (length ps)))\<rparr>)"
    by (rule Cons.IH) (use Cons.prems rest in simp_all)
  with step show ?case by simp
qed

lemma task_loop_after_headers:
  assumes "get_authenticated_headers be w = Some (Inr hdrs, w1)"
  shows "task_loop be endpoint dev psize off acc w = task_loop be endpoint dev psize off acc w1"
proof -
  from get_authenticated_headers_Inr [OF assms]
  have "get_authenticated_headers be w1 = Some (Inr hdrs, w1)"
    by (auto simp: get_authenticated_headers_cached)
  with assms show ?thesis
    unfolding task_loop.simps [of be endpoint dev psize off acc w]
      task_loop.simps [of be endpoint dev psize off acc w1]
    by simp
qed

lemma fetch_pages:
  assumes "get_authenticated_headers be w = Some (Inr hdrs, w1)"
    and "pages_served be (sent w1)
           (page_request (get_get_admin_endpoint (client w) ''/events/query'') hdrs deviceId 100)
           100 0 (ps @ [p])"
    and "\<forall>q\<in>set ps. 100 \<le> length q"
    and "length p < 100"
  shows "get_task_list_for_device_sync be deviceId w =
     Some (Inr (Some (concat ps @ p)),
           w1\<lparr>sent := sent w1 @
             map (page_request (get_get_admin_endpoint (client w) ''/events/query'') hdrs
                    deviceId 100)
               (offsets 100 0 (Suc (length ps)))\<rparr>)"
proof -
  let ?e = "get_get_admin_endpoint (client w) ''/events/query''"
  from get_authenticated_headers_Inr [OF assms(1)]
  have h: "hdrs = authenticated_headers (client w1)" and ne: "authenticated_headers (client w1) \<noteq> []"
    by auto
  have "task_loop be ?e deviceId 100 0 [] w1 =
     Some (Inr ([] @ concat ps @ p),
           w1\<lparr>sent := sent w1 @
             map (page_request ?e (authenticated_headers (client w1)) deviceId 100)
               (offsets 100 0 (Suc (length ps)))\<rparr>)"
    by (rule task_loop_pages [OF ne]) (use assms(2-4) h in simp_all)
  with task_loop_after_headers [OF assms(1)] h
  have "get_task_list_for_device_sync_body be deviceId w =
     Some (Inr (concat ps @ p),
           w1\<lparr>sent := sent w1 @ map (page_request ?e hdrs deviceId 100)
               (offsets 100 0 (Suc (length ps)))\<rparr>)"
    by (simp add: get_task_list_for_device_sync_body_def)
  from wrapper_returns [of "get_task_list_for_device_sync_body be deviceId", OF this]
  show ?thesis by (simp add: get_task_list_for_device_sync_def)
qed

lemma is_page_response: "is_page (page_response p) p"
  by (simp add: is_page_def page_response_def extract_items_def)

lemma length_events: "length (events a b) = b - a"
  by (simp add: events_def)

lemma events_append: "a \<le> b \<Longrightarrow> b \<le> c \<Longrightarrow> events a b @ events b c = events a c"
  using upt_add_eq_append [of a b "c - b"] by (simp add: events_def flip: map_append)

lemma events_empty: "events a a = []"
  by (simp add: events_def)

lemma served_237:
  "pages_served (paged_backend 237) hist (page_request e h d 100) 100 0
     ([events 0 100, events 100 200] @ [events 200 237])"
  by (simp add: paged_backend_def Let_def int_field_def page_request_def is_page_response)

lemma served_0:
  "pages_served (paged_backend 0) hist (page_request e h d 100) 100 0 ([] @ [[]])"
  by (simp add: paged_backend_def Let_def int_field_def page_request_def is_page_response
      events_empty)

lemma served_250:
  "pages_served (paged_backend 250) hist (page_request e h d 100) 100 0
     ([events 0 100, events 100 200] @ [events 200 250])"
  by (simp add: paged_backend_def Let_def int_field_def page_request_def is_page_response)

text \<open>
  Claim C1. Once the headers are obtained, let the backend answer the page requests for the
  offsets 0, 100, 200, ... with the pages \<open>ps\<close>, each of at least 100 items, and then with a
  page \<open>p\<close> of fewer than 100 items (possibly none). Then
  \<open>get_task_list_for_device_sync\<close> returns the items of \<open>ps\<close> followed by those of \<open>p\<close>, in
  that order, and the requests it sent are exactly the \<open>length ps + 1\<close> page requests for the
  offsets 0, 100, ... in steps of 100: it starts at offset 0, goes on after every full page
  and stops at the first short one.
\<close>

theorem fetch_all_pages:
  assumes "get_authenticated_headers be w = Some (Inr hdrs, w1)"
    and "pages_served be (sent w1)
           (page_request (get_get_admin_endpoint (client w) ''/events/query'') hdrs deviceId 100)
           100 0 (ps @ [p])"
    and "\<forall>q\<in>set ps. 100 \<le> length q"
    and "length p < 100"
  shows "get_task_list_for_device_sync be deviceId w =
     Some (Inr (Some (concat ps @ p)),
           w1\<lparr>sent := sent w1 @
             map (page_request (get_get_admin_endpoint (client w) ''/events/query'') hdrs
                    deviceId 100)
               (offsets 100 0 (Suc (length ps)))\<rparr>)"
  using assms by (rule fetch_pages)

text \<open>
  The instances of the specification: a backend holding 237 events is asked for three pages
  (offsets 0, 100, 200) and the 237 events come back in order; a backend holding none is
  asked for one page and the result is empty.
\<close>

theorem fetch_all_pages_witness:
  "(get_authenticated_headers (paged_backend 237) authed_world =
      Some (Inr (authenticated_headers (client authed_world)), authed_world) \<and>
    pages_served (paged_backend 237) (sent authed_world)
      (page_request (get_get_admin_endpoint (client authed_world) ''/events/query'')
         (authenticated_headers (client authed_world)) ''dev-1'' 100)
      100 0 ([events 0 100, events 100 200] @ [events 200 237]) \<and>
    100 \<le> length (events 0 100) \<and> 100 \<le> length (events 100 200) \<and>
    length (events 200 237) = 37 \<and>
    get_task_list_for_device_sync (paged_backend 237) ''dev-1'' authed_world =
      Some (Inr (Some (events 0 237)),
            authed_world\<lparr>sent := sent authed_world @
              map (page_request (get_get_admin_endpoint (client authed_world) ''/events/query'')
                     (authenticated_headers (client authed_world)) ''dev-1'' 100)
                [0, 100, 200]\<rparr>) \<and>
    length (events 0 237) = 237) \<and>
   (pages_served (paged_backend 0) (sent authed_world)
      (page_request (get_get_admin_endpoint (client authed_world) ''/events/query'')
         (authenticated_headers (client authed_world)) ''dev-1'' 100)
      100 0 ([] @ [[]]) \<and>
    get_task_list_for_device_sync (paged_backend 0) ''dev-1'' authed_world =
      Some (Inr (Some []),
            authed_world\<lparr>sent := sent authed_world @
              [page_request (get_get_admin_endpoint (client authed_world) ''/events/query'')
                 (authenticated_headers (client authed_world)) ''dev-1'' 100 0]\<rparr>))"
proof -
  note h = get_authenticated_headers_cached [OF authed_headers]
  have e: "concat [events 0 100, events 100 200] @ events 200 237 = events 0 237"
    by (simp add: events_append)
  have r1: "get_task_list_for_device_sync (paged_backend 237) ''dev-1'' authed_world =
      Some (Inr (Some (events 0 237)),
            authed_world\<lparr>sent := sent authed_world @
              map (page_request (get_get_admin_endpoint (client authed_world) ''/events/query'')
                     (authenticated_headers (client authed_world)) ''dev-1'' 100)
                [0, 100, 200]\<rparr>)"
    using fetch_all_pages [OF h served_237, of "''dev-1''"] e
    by (simp add: length_events)
  have r2: "get_task_list_for_device_sync (paged_backend 0) ''dev-1'' authed_world =
      Some (Inr (Some []),
            authed_world\<lparr>sent := sent authed_world @
              [page_request (get_get_admin_endpoint (client authed_world) ''/events/query'')
                 (authenticated_headers (client authed_world)) ''dev-1'' 100 0]\<rparr>)"
    using fetch_all_pages [OF h served_0, of "''dev-1''"] by simp
  show ?thesis
    by (intro conjI h served_237 served_0 r1 r2) (simp_all add: length_events)
qed

text \<open>
  Claim C7. Under the same conditions the result is exactly the concatenation of the pages
  in fetch order: its length is the sum of the page lengths, and every item occurs in it as
  many times as in the pages together, so none is dropped and none is duplicated.
\<close>

theorem aggregate_is_concatenation:
  assumes "get_authenticated_headers be w = Some (Inr hdrs, w1)"
    and "pages_served be (sent w1)
           (page_request (get_get_admin_endpoint (client w) ''/events/query'') hdrs deviceId 100)
           100 0 (ps @ [p])"
    and "\<forall>q\<in>set ps. 100 \<le> length q"
    and "length p < 100"
  shows "\<exists>items. map_option fst (get_task_list_for_device_sync be deviceId w) =
                   Some (Inr (Some items)) \<and>
           items = concat (ps @ [p]) \<and>
           length items = sum_list (map length (ps @ [p])) \<and>
           (\<forall>x. count_list items x = sum_list (map (\<lambda>q. count_list q x) (ps @ [p])))"
proof -
  have c: "count_list (concat qs) x = sum_list (map (\<lambda>q. count_list q x) qs)"
    for qs :: "json list list" and x
    by (induction qs) (simp_all add: count_list_append)
  from fetch_pages [OF assms] show ?thesis
    by (simp add: length_concat c)
qed

theorem aggregate_is_concatenation_witness:
  "get_authenticated_headers (paged_backend 250) authed_world =
     Some (Inr (authenticated_headers (client authed_world)), authed_world) \<and>
   pages_served (paged_backend 250) (sent authed_world)
     (page_request (get_get_admin_endpoint (client authed_world) ''/events/query'')
        (authenticated_headers (client authed_world)) ''dev-1'' 100)
     100 0 ([events 0 100, events 100 200] @ [events 200 250]) \<and>
   100 \<le> length (events 0 100) \<and> 100 \<le> length (events 100 200) \<and>
   length (events 200 250) < 100 \<and>
   map_option fst (get_task_list_for_device_sync (paged_backend 250) ''dev-1'' authed_world) =
     Some (Inr (Some (events 0 250))) \<and>
   length (events 0 250) = 100 + 100 + 50"
proof -
  note h = get_authenticated_headers_cached [OF authed_headers]
  have e: "concat ([events 0 100, events 100 200] @ [events 200 250]) = events 0 250"
    by (simp add: events_append)
  have r: "map_option fst
        (get_task_list_for_device_sync (paged_backend 250) ''dev-1'' authed_world) =
      Some (Inr (Some (events 0 250)))"
    using aggregate_is_concatenation [OF h served_250, of "''dev-1''"] e
    by (auto simp: length_events)
  show ?thesis
    by (intro conjI h served_250 r) (simp_all add: length_events)
qed

section \<open>Every error of the module is retryable\<close>

lemma new_error_retryable: "retryable (new_error m)"
  by (simp add: new_error_def FormantClientRequestError_init_def retryable_default_def)

lemma authenticate_body_error:
  "authenticate_body be w = Some (Inl (FormantErr e), w') \<Longrightarrow> retryable e"
  by (auto simp: authenticate_body_def requests_post_def new_error_retryable
      split: if_splits sum.splits prod.splits)

lemma wrapper_loop_Raised:
  "wrapper_loop n func js w = Some (Raised x, w') \<Longrightarrow>
   \<exists>w0. func w0 = Some (Inl x, w') \<and> (\<forall>e. x = FormantErr e \<longrightarrow> \<not> retryable e)"
proof (induction js arbitrary: w)
  case Nil
  then show ?case by simp
next
  case (Cons j js)
  show ?case
  proof (cases "func w")
    case None
    with Cons.prems show ?thesis by simp
  next
    case (Some pr)
    obtain r0 w2 where pr: "pr = (r0, w2)" by (cases pr)
    show ?thesis
    proof (cases r0)
      case (Inr v')
      with Cons.prems Some pr show ?thesis by auto
    next
      case (Inl y)
      show ?thesis
      proof (cases y)
        case (Other z)
        with Cons.prems Some pr Inl show ?thesis by auto
      next
        case (FormantErr e)
        show ?thesis
        proof (cases "retryable e")
          case True
          with Cons.prems Some pr Inl FormantErr
          have "wrapper_loop n func js (logging_warning (retry_message e j n) w2) =
                Some (Raised x, w')" by simp
          from Cons.IH [OF this] show ?thesis .
        next
          case False
          with Cons.prems Some pr Inl FormantErr show ?thesis by auto
        qed
      qed
    qed
  qed
qed

lemma wrapper_error:
  assumes "\<And>w e w1. func w = Some (Inl (FormantErr e), w1) \<Longrightarrow> retryable e"
    and "formant_client_retry_on_failure n p func w = Some (Inl (FormantErr e), w')"
  shows "retryable e"
proof -
  from assms(2) consider
    (raised) "wrapper_loop n func (py_range n) w = Some (Raised (FormantErr e), w')"
    | (exhausted) "e = exhausted_error n"
    by (auto simp: formant_client_retry_on_failure_def
        split: option.splits prod.splits loop_exit.splits if_splits)
  then show ?thesis
  proof cases
    case raised
    from wrapper_loop_Raised [OF this] assms(1) show ?thesis by blast
  next
    case exhausted
    then show ?thesis by (simp add: exhausted_error_def new_error_retryable)
  qed
qed

lemma get_authenticated_headers_error:
  assumes "get_authenticated_headers be w = Some (Inl (FormantErr e), w')"
  shows "retryable e"
proof -
  from assms have "authenticate be w = Some (Inl (FormantErr e), w')"
    by (auto simp: get_authenticated_headers_def split: option.splits prod.splits sum.splits)
  then show ?thesis
    unfolding authenticate_def by (rule wrapper_error [rotated]) (rule authenticate_body_error)
qed

lemma query_robots_body_error:
  "query_robots_body be tags en w = Some (Inl (FormantErr e), w') \<Longrightarrow> retryable e"
  by (auto simp: query_robots_body_def requests_post_def new_error_retryable
      dest: get_authenticated_headers_error
      split: if_splits sum.splits prod.splits option.splits)

lemma task_loop_error_aux:
  assumes "task_loop be endpoint dev psize off acc w = Some y"
  shows "\<forall>e w'. y = (Inl (FormantErr e), w') \<longrightarrow> retryable e"
proof (rule task_loop.raw_induct
    [where P = "\<lambda>be endpoint dev psize off acc w y.
                  \<forall>e w'. y = (Inl (FormantErr e), w') \<longrightarrow> retryable e", OF _ assms],
    goal_cases)
  case (1 f be endpoint dev psize off acc w y)
  note IH = "1"(1) [rule_format, OF _ refl]
  from "1"(2) show ?case
    by (auto simp: requests_post_def response_status_def
        dest: get_authenticated_headers_error IH
        split: option.splits prod.splits sum.splits if_splits)
qed

lemma task_loop_error:
  "task_loop be endpoint dev psize off acc w = Some (Inl (FormantErr e), w') \<Longrightarrow> retryable e"
  using task_loop_error_aux by blast

lemma raised_Some: "raised x = Some (Some e, w') \<longleftrightarrow> x = Some (Inl e, w')"
  by (cases x rule: raised.cases) auto

lemma run_call_error:
  assumes "run_call be c w = Some (Some (FormantErr e), w')"
  shows "retryable e"
proof (cases c)
  case (Get_get_admin_endpoint path)
  with assms show ?thesis by simp
next
  case Authenticate
  with assms have "authenticate be w = Some (Inl (FormantErr e), w')"
    by (simp add: raised_Some)
  then show ?thesis
    unfolding authenticate_def by (rule wrapper_error [rotated]) (rule authenticate_body_error)
next
  case Get_authenticated_headers
  with assms show ?thesis by (simp add: raised_Some get_authenticated_headers_error)
next
  case (Query_robots tags en)
  with assms have "query_robots be tags en w = Some (Inl (FormantErr e), w')"
    by (simp add: raised_Some)
  then show ?thesis
    unfolding query_robots_def by (rule wrapper_error [rotated]) (rule query_robots_body_error)
next
  case (Get_task_list_for_device_sync d)
  with assms have "get_task_list_for_device_sync be d w = Some (Inl (FormantErr e), w')"
    by (simp add: raised_Some)
  then show ?thesis
    unfolding get_task_list_for_device_sync_def
    by (rule wrapper_error [rotated])
       (simp add: get_task_list_for_device_sync_body_def task_loop_error)
qed

lemma fast_path_unreachable:
  assumes "\<And>w e w1. func w = Some (Inl (FormantErr e), w1) \<Longrightarrow> retryable e"
  shows "wrapper_loop n func js w \<noteq> Some (Raised (FormantErr e), w')"
proof
  assume "wrapper_loop n func js w = Some (Raised (FormantErr e), w')"
  from wrapper_loop_Raised [OF this] assms show False by blast
qed

lemma down_login:
  "authenticate_body down_backend demo_world =
     Some (Inl (FormantErr busy_error), demo_world\<lparr>sent := [login_request demo_client]\<rparr>)"
  by (simp add: authenticate_body_def requests_post_def down_backend_def demo_world_def
    demo_client_def FormantClient_init_def busy_response_def busy_error_def new_error_def
    FormantClientRequestError_init_def retryable_default_def)

lemma down_headers:
  "get_authenticated_headers down_backend demo_world =
     Some (Inl (FormantErr (exhausted_error 5)), w_down)"
  using retries_exhausted [OF down_retried]
  by (simp add: get_authenticated_headers_def authenticate_def NUM_RETRIES_def)

lemma down_task_body:
  "get_task_list_for_device_sync_body down_backend ''dev-1'' demo_world =
     Some (Inl (FormantErr (exhausted_error 5)), w_down)"
  unfolding get_task_list_for_device_sync_body_def
  by (subst task_loop.simps) (simp add: down_headers)

lemma garbled_query:
  "query_robots_body garbled_backend (JObj []) False authed_world =
     Some (Inl (FormantErr (new_error ''Failed to query robots: Expecting value'')),
           authed_world\<lparr>sent := sent authed_world @
             [query_request (client authed_world) (authenticated_headers (client authed_world))
                (JObj []) False]\<rparr>)"
  by (simp add: query_robots_body_def get_authenticated_headers_cached [OF authed_headers]
      requests_post_def garbled_backend_def garbled_items garbled_status)

text \<open>
  Claim C9. A \<open>FormantClientRequestError\<close> raised by any function of the module has its
  \<open>retryable\<close> field \<open>True\<close>: those the three decorated bodies raise (which are the ones
  the wrapper's \<^verbatim>\<open>except\<close> clause sees), and those a call of any method raises, the
  retries-exhausted error among them. So the wrapper's loop never leaves through its
  immediate re-raise of a non-retryable error, whatever the bound, the attempt and the world.
\<close>

theorem module_errors_retryable:
  "(authenticate_body be w = Some (Inl (FormantErr e), w') \<longrightarrow> retryable e) \<and>
   (query_robots_body be tags enabled_only w = Some (Inl (FormantErr e), w') \<longrightarrow> retryable e) \<and>
   (get_task_list_for_device_sync_body be deviceId w = Some (Inl (FormantErr e), w') \<longrightarrow>
      retryable e) \<and>
   (run_call be c w = Some (Some (FormantErr e), w') \<longrightarrow> retryable e) \<and>
   wrapper_loop n (authenticate_body be) js w \<noteq> Some (Raised (FormantErr e), w') \<and>
   wrapper_loop n (query_robots_body be tags enabled_only) js w \<noteq>
     Some (Raised (FormantErr e), w') \<and>
   wrapper_loop n (get_task_list_for_device_sync_body be deviceId) js w \<noteq>
     Some (Raised (FormantErr e), w')"
proof -
  have t: "get_task_list_for_device_sync_body be deviceId w0 = Some (Inl (FormantErr e0), w1) \<Longrightarrow>
           retryable e0" for w0 e0 w1
    by (simp add: get_task_list_for_device_sync_body_def task_loop_error)
  have f1: "wrapper_loop n (authenticate_body be) js w \<noteq> Some (Raised (FormantErr e), w')"
    by (rule fast_path_unreachable) (rule authenticate_body_error)
  have f2: "wrapper_loop n (query_robots_body be tags enabled_only) js w \<noteq>
              Some (Raised (FormantErr e), w')"
    by (rule fast_path_unreachable) (rule query_robots_body_error)
  have f3: "wrapper_loop n (get_task_list_for_device_sync_body be deviceId) js w \<noteq>
              Some (Raised (FormantErr e), w')"
    by (rule fast_path_unreachable) (rule t)
  show ?thesis
    using authenticate_body_error [of be w e w'] query_robots_body_error [of be tags enabled_only w e w']
      t [of w e w'] run_call_error [of be c w e w'] f1 f2 f3
    by blast
qed

theorem module_errors_retryable_witness:
  "authenticate_body down_backend demo_world =
     Some (Inl (FormantErr busy_error), demo_world\<lparr>sent := [login_request demo_client]\<rparr>) \<and>
   retryable busy_error \<and>
   query_robots_body garbled_backend (JObj []) False authed_world =
     Some (Inl (FormantErr (new_error ''Failed to query robots: Expecting value'')),
           authed_world\<lparr>sent := sent authed_world @
             [query_request (client authed_world) (authenticated_headers (client authed_world))
                (JObj []) False]\<rparr>) \<and>
   retryable (new_error ''Failed to query robots: Expecting value'') \<and>
   get_task_list_for_device_sync_body down_backend ''dev-1'' demo_world =
     Some (Inl (FormantErr (exhausted_error 5)), w_down) \<and>
   run_call down_backend Authenticate demo_world =
     Some (Some (FormantErr (exhausted_error 5)), w_down) \<and>
   retryable (exhausted_error 5)"
proof -
  have c: "run_call down_backend Authenticate demo_world =
     Some (Some (FormantErr (exhausted_error 5)), w_down)"
    using retries_exhausted [OF down_retried] by (simp add: authenticate_def NUM_RETRIES_def)
  have r1: "retryable busy_error"
    using module_errors_retryable [where be = down_backend and w = demo_world
        and e = busy_error] down_login by blast
  have r2: "retryable (new_error ''Failed to query robots: Expecting value'')"
    using module_errors_retryable [where be = garbled_backend and tags = "JObj []"
        and enabled_only = False and w = authed_world
        and e = "new_error ''Failed to query robots: Expecting value''"] garbled_query
    by blast
  have r3: "retryable (exhausted_error 5)"
    using module_errors_retryable [where be = down_backend and deviceId = "''dev-1''"
        and w = demo_world and e = "exhausted_error 5" and w' = w_down] down_task_body
    by blast
  show ?thesis
    by (intro conjI down_login garbled_query down_task_body c r1 r2 r3)
qed

section \<open>Retries nested in retries\<close>

lemma wrapper_loop_all_fail:
  assumes step: "\<And>w0. client w0 = c \<Longrightarrow>
      \<exists>e w1. func w0 = Some (Inl (FormantErr e), w1) \<and> retryable e \<and> client w1 = c \<and>
             sent w1 = sent w0 @ replicate k lr"
    and "client w = c"
  shows "\<exists>w'. wrapper_loop n func js w = Some (Fell_through, w') \<and> client w' = c \<and>
              sent w' = sent w @ replicate (length js * k) lr"
  using assms(2)
proof (induction js arbitrary: w)
  case Nil
  then show ?case by simp
next
  case (Cons j js)
  from step [OF Cons.prems] obtain e w1 where
    f: "func w = Some (Inl (FormantErr e), w1)" and r: "retryable e" and c1: "client w1 = c"
    and s1: "sent w1 = sent w @ replicate k lr"
    by blast
  let ?w2 = "logging_warning (retry_message e j n) w1"
  from c1 have "client ?w2 = c" by (simp add: logging_warning_def)
  from Cons.IH [OF this] obtain w' where
    l: "wrapper_loop n func js ?w2 = Some (Fell_through, w')" and c': "client w' = c"
    and s': "sent w' = sent ?w2 @ replicate (length js * k) lr"
    by blast
  from s' s1 have "sent w' = sent w @ replicate (length (j # js) * k) lr"
    by (simp add: logging_warning_def replicate_add)
  with f r l c' show ?case by simp
qed

lemma wrapper_all_fail:
  assumes "\<And>w0. client w0 = c \<Longrightarrow>
      \<exists>e w1. func w0 = Some (Inl (FormantErr e), w1) \<and> retryable e \<and> client w1 = c \<and>
             sent w1 = sent w0 @ replicate k lr"
    and "client w = c"
  shows "\<exists>w'. formant_client_retry_on_failure NUM_RETRIES True func w =
                Some (Inl (FormantErr (exhausted_error NUM_RETRIES)), w') \<and>
              client w' = c \<and> sent w' = sent w @ replicate (5 * k) lr"
proof -
  from wrapper_loop_all_fail [of c func k lr w NUM_RETRIES "py_range NUM_RETRIES", OF assms]
  obtain w' where "wrapper_loop NUM_RETRIES func (py_range NUM_RETRIES) w = Some (Fell_through, w')"
    and "client w' = c" and "sent w' = sent w @ replicate (5 * k) lr"
    by (auto simp: py_range_NUM_RETRIES)
  then show ?thesis by (simp add: formant_client_retry_on_failure_def)
qed

lemma login_fails:
  assumes "authenticated_headers c = []"
    and "\<forall>hist. \<exists>r. be (hist @ [login_request c]) = Inr r \<and> status_code r \<noteq> 200"
    and "client w0 = c"
  shows "\<exists>e w1. authenticate_body be w0 = Some (Inl (FormantErr e), w1) \<and> retryable e \<and>
           client w1 = c \<and> sent w1 = sent w0 @ replicate 1 (login_request c)"
proof -
  from assms(2) obtain r where "be (sent w0 @ [login_request c]) = Inr r" and "status_code r \<noteq> 200"
    by blast
  with assms(1,3) show ?thesis
    by (simp add: authenticate_body_def requests_post_def new_error_retryable)
qed

lemma query_fails:
  assumes "authenticated_headers c = []"
    and "\<forall>hist. \<exists>r. be (hist @ [login_request c]) = Inr r \<and> status_code r \<noteq> 200"
    and "client w0 = c"
  shows "\<exists>e w1. query_robots_body be tags en w0 = Some (Inl (FormantErr e), w1) \<and> retryable e \<and>
           client w1 = c \<and> sent w1 = sent w0 @ replicate 5 (login_request c)"
proof -
  from wrapper_all_fail [of c "authenticate_body be" 1 "login_request c" w0,
      OF login_fails [OF assms(1,2)] assms(3)]
  obtain w1 where "authenticate be w0 = Some (Inl (FormantErr (exhausted_error NUM_RETRIES)), w1)"
    and "client w1 = c" and "sent w1 = sent w0 @ replicate 5 (login_request c)"
    by (auto simp: authenticate_def)
  then show ?thesis
    by (simp add: query_robots_body_def get_authenticated_headers_def exhausted_error_def
        new_error_retryable)
qed

text \<open>
  Claim C10. \<open>_authenticate\<close> and \<open>query_robots\<close> each carry the wrapper with
  \<open>NUM_RETRIES = 5\<close>, and the error of exhausted retries is retryable. So when the cached
  headers are empty and the backend answers every login request with a status other than
  200, one call of \<open>query_robots\<close> sends exactly \<open>NUM_RETRIES * NUM_RETRIES = 25\<close> requests,
  all of them the login request, and then raises the error of exhausted retries.
\<close>

theorem nested_retries_25_logins:
  assumes "authenticated_headers (client w) = []"
    and "\<forall>hist. \<exists>r. be (hist @ [login_request (client w)]) = Inr r \<and> status_code r \<noteq> 200"
  shows "\<exists>w'. query_robots be tags enabled_only w =
                Some (Inl (FormantErr (exhausted_error NUM_RETRIES)), w') \<and>
              sent w' = sent w @ replicate (nat (NUM_RETRIES * NUM_RETRIES))
                                   (login_request (client w)) \<and>
              nat (NUM_RETRIES * NUM_RETRIES) = 25 \<and>
              client w' = client w"
proof -
  from wrapper_all_fail [of "client w" "query_robots_body be tags enabled_only" 5
      "login_request (client w)" w, OF query_fails [OF assms] refl]
  show ?thesis
    by (auto simp: query_robots_def NUM_RETRIES_def)
qed

theorem nested_retries_25_logins_witness:
  "authenticated_headers (client demo_world) = [] \<and>
   (\<forall>hist. down_backend (hist @ [login_request (client demo_world)]) = Inr busy_response) \<and>
   status_code busy_response \<noteq> 200 \<and>
   (\<exists>w'. query_robots down_backend (JObj []) False demo_world =
                Some (Inl (FormantErr (exhausted_error 5)), w') \<and>
         sent w' = sent demo_world @ replicate 25 (login_request (client demo_world)))"
proof -
  have a: "authenticated_headers (client demo_world) = []"
    by (simp add: demo_world_def demo_client_def FormantClient_init_def)
  have b: "\<forall>hist. \<exists>r. down_backend (hist @ [login_request (client demo_world)]) = Inr r \<and>
                      status_code r \<noteq> 200"
    by (simp add: down_backend_def busy_response_def)
  have c: "\<forall>hist. down_backend (hist @ [login_request (client demo_world)]) = Inr busy_response"
    by (simp add: down_backend_def)
  have d: "status_code busy_response \<noteq> 200"
    by (simp add: busy_response_def)
  from nested_retries_25_logins [OF a b, of "JObj []" False]
  have "\<exists>w'. query_robots down_backend (JObj []) False demo_world =
                Some (Inl (FormantErr (exhausted_error 5)), w') \<and>
         sent w' = sent demo_world @ replicate 25 (login_request (client demo_world))"
    by (auto simp: NUM_RETRIES_def)
  with a c d show ?thesis by blast
qed

section \<open>The cached headers\<close>

lemma wrapper_loop_inv:
  assumes step: "\<And>w0 r w1. I w0 \<Longrightarrow> func w0 = Some (r, w1) \<Longrightarrow> I w1"
    and log: "\<And>m w0. I w0 \<Longrightarrow> I (logging_warning m w0)"
  shows "I w \<Longrightarrow> wrapper_loop n func js w = Some (x, w') \<Longrightarrow> I w'"
proof (induction js arbitrary: w)
  case Nil
  then show ?case by simp
next
  case (Cons j js)
  show ?case
  proof (cases "func w")
    case None
    with Cons.prems show ?thesis by simp
  next
    case (Some pr)
    obtain r0 w2 where pr: "pr = (r0, w2)" by (cases pr)
    from step [OF Cons.prems(1)] Some pr have i2: "I w2" by simp
    show ?thesis
    proof (cases r0)
      case (Inr v')
      with Cons.prems Some pr i2 show ?thesis by auto
    next
      case (Inl y)
      show ?thesis
      proof (cases y)
        case (Other z)
        with Cons.prems Some pr Inl i2 show ?thesis by auto
      next
        case (FormantErr e)
        show ?thesis
        proof (cases "retryable e")
          case True
          with Cons.prems Some pr Inl FormantErr
          have "wrapper_loop n func js (logging_warning (retry_message e j n) w2) = Some (x, w')"
            by simp
          from Cons.IH [OF log [OF i2] this] show ?thesis .
        next
          case False
          with Cons.prems Some pr Inl FormantErr i2 show ?thesis by auto
        qed
      qed
    qed
  qed
qed

lemma wrapper_inv:
  assumes "\<And>w0 r w1. I w0 \<Longrightarrow> func w0 = Some (r, w1) \<Longrightarrow> I w1"
    and "\<And>m w0. I w0 \<Longrightarrow> I (logging_warning m w0)"
    and "I w" and "formant_client_retry_on_failure n p func w = Some (r, w')"
  shows "I w'"
proof -
  from assms(4) obtain x where "wrapper_loop n func (py_range n) w = Some (x, w')"
    by (auto simp: formant_client_retry_on_failure_def
        split: option.splits prod.splits loop_exit.splits if_splits)
  from wrapper_loop_inv [of I func, OF assms(1,2,3) this] show ?thesis by simp
qed

lemma cached_log: "cached c k w0 \<Longrightarrow> cached c k (logging_warning m w0)"
  by (simp add: cached_def logging_warning_def)

lemma cached_authenticate_body:
  "cached c k w0 \<Longrightarrow> authenticate_body be w0 = Some (r, w1) \<Longrightarrow> cached c k w1"
  by (auto simp: cached_def authenticate_body_def)

lemma cached_get_headers:
  assumes "cached c k w0" and "get_authenticated_headers be w0 = Some (r, w1)"
  shows "cached c k w1"
proof -
  from assms(2) obtain r' where "authenticate be w0 = Some (r', w1)"
    by (auto simp: get_authenticated_headers_def split: option.splits prod.splits sum.splits)
  then show ?thesis
    unfolding authenticate_def
    by (rule wrapper_inv [of "cached c k", rotated 3])
       (auto intro: cached_authenticate_body cached_log assms(1))
qed

lemma cached_post:
  "cached c k w0 \<Longrightarrow> url rq \<noteq> get_get_admin_endpoint c ''/auth/login'' \<Longrightarrow>
   cached c k (snd (requests_post be rq w0))"
  by (simp add: cached_def requests_post_def logins_def)

lemma query_url: "url (query_request c h t en) \<noteq> get_get_admin_endpoint c ''/auth/login''"
  by (simp add: query_request_def get_get_admin_endpoint_def)

lemma cached_query_body:
  assumes "cached c k w0" and "query_robots_body be tags en w0 = Some (r, w1)"
  shows "cached c k w1"
proof (cases "get_authenticated_headers be w0")
  case None
  with assms(2) show ?thesis by (simp add: query_robots_body_def)
next
  case (Some pr)
  obtain r0 w2 where pr: "pr = (r0, w2)" by (cases pr)
  from cached_get_headers [OF assms(1)] Some pr have c2: "cached c k w2" by simp
  then have cl: "client w2 = c" by (simp add: cached_def)
  show ?thesis
  proof (cases r0)
    case (Inl e)
    with assms(2) Some pr c2 show ?thesis by (simp add: query_robots_body_def)
  next
    case (Inr hdrs)
    from cached_post [OF c2 query_url [of c hdrs tags en], of be]
    have "cached c k (snd (requests_post be (query_request (client w2) hdrs tags en) w2))"
      by (simp add: cl)
    with assms(2) Some pr Inr show ?thesis
      by (auto simp: query_robots_body_def split: prod.splits sum.splits if_splits)
  qed
qed

lemma cached_task_loop_aux:
  assumes "task_loop be endpoint dev psize off acc w = Some y"
  shows "endpoint \<noteq> get_get_admin_endpoint c ''/auth/login'' \<longrightarrow> cached c k w \<longrightarrow>
         cached c k (snd y)"
proof (rule task_loop.raw_induct
    [where P = "\<lambda>be endpoint dev psize off acc w y.
        endpoint \<noteq> get_get_admin_endpoint c ''/auth/login'' \<longrightarrow> cached c k w \<longrightarrow>
        cached c k (snd y)", OF _ assms],
    goal_cases)
  case (1 f be endpoint dev psize off acc w y)
  show ?case
  proof (intro impI)
    assume ep: "endpoint \<noteq> get_get_admin_endpoint c ''/auth/login''" and cw: "cached c k w"
    show "cached c k (snd y)"
    proof (cases "get_authenticated_headers be w")
      case None
      with "1"(2) show ?thesis by simp
    next
      case (Some pr)
      obtain r0 w1 where pr: "pr = (r0, w1)" by (cases pr)
      from cached_get_headers [OF cw] Some pr have c1: "cached c k w1" by simp
      show ?thesis
      proof (cases r0)
        case (Inl e)
        with "1"(2) Some pr c1 show ?thesis by auto
      next
        case (Inr hdrs)
        let ?rq = "page_request endpoint hdrs dev psize off"
        let ?w2 = "w1\<lparr>sent := sent w1 @ [?rq]\<rparr>"
        have c2: "cached c k ?w2"
          using cached_post [OF c1, of ?rq be] ep by (simp add: requests_post_def page_request_def)
        note IH = "1"(1) [rule_format, OF _ ep c2]
        from "1"(2) Some pr Inr c2 show ?thesis
          by (auto simp: requests_post_def dest: IH split: sum.splits if_splits)
      qed
    qed
  qed
qed

lemma events_url:
  "get_get_admin_endpoint c ''/events/query'' \<noteq> get_get_admin_endpoint c ''/auth/login''"
  by (simp add: get_get_admin_endpoint_def)

lemma cached_task_body:
  assumes "cached c k w0" and "get_task_list_for_device_sync_body be d w0 = Some (r, w1)"
  shows "cached c k w1"
proof -
  from assms(1) have "client w0 = c" by (simp add: cached_def)
  with cached_task_loop_aux [OF assms(2) [unfolded get_task_list_for_device_sync_body_def],
      of c k] events_url [of c] assms(1)
  show ?thesis by simp
qed

lemma raised_world: "raised x = Some (e, w') \<Longrightarrow> \<exists>r. x = Some (r, w')"
  by (cases x rule: raised.cases) auto

lemma cached_run_call:
  assumes "cached c k w" and "run_call be cl w = Some (x, w')"
  shows "cached c k w'"
proof (cases cl)
  case (Get_get_admin_endpoint path)
  with assms show ?thesis by simp
next
  case Authenticate
  with assms(2) obtain r where "authenticate be w = Some (r, w')"
    by (auto dest: raised_world)
  then show ?thesis
    unfolding authenticate_def
    by (rule wrapper_inv [of "cached c k", rotated 3])
       (auto intro: cached_authenticate_body cached_log assms(1))
next
  case Get_authenticated_headers
  with assms(2) obtain r where "get_authenticated_headers be w = Some (r, w')"
    by (auto dest: raised_world)
  from cached_get_headers [OF assms(1) this] show ?thesis .
next
  case (Query_robots tags en)
  with assms(2) obtain r where "query_robots be tags en w = Some (r, w')"
    by (auto dest: raised_world)
  then show ?thesis
    unfolding query_robots_def
    by (rule wrapper_inv [of "cached c k", rotated 3])
       (auto intro: cached_query_body cached_log assms(1))
next
  case (Get_task_list_for_device_sync d)
  with assms(2) obtain r where "get_task_list_for_device_sync be d w = Some (r, w')"
    by (auto dest: raised_world)
  then show ?thesis
    unfolding get_task_list_for_device_sync_def
    by (rule wrapper_inv [of "cached c k", rotated 3])
       (auto intro: cached_task_body cached_log assms(1))
qed

lemma cached_run_calls:
  "cached c k w \<Longrightarrow> run_calls be cs w = Some w' \<Longrightarrow> cached c k w'"
proof (induction cs arbitrary: w)
  case Nil
  then show ?case by simp
next
  case (Cons cl cs)
  from Cons.prems(2) obtain x w1 where r: "run_call be cl w = Some (x, w1)"
    and rest: "run_calls be cs w1 = Some w'"
    by (auto split: option.splits)
  from Cons.IH [OF cached_run_call [OF Cons.prems(1) r] rest] show ?case .
qed

lemma first_login:
  assumes "authenticated_headers (client w) = []"
    and "be (sent w @ [login_request (client w)]) = Inr r" and "status_code r = 200"
    and "response_json r = Inr j" and "py_getitem j ''authentication'' = Inr a"
    and "py_getitem a ''accessToken'' = Inr token"
  shows "get_authenticated_headers be w =
     Some (Inr [(''authorization'', ''Bearer '' @ py_str token),
                (''content-type'', ''application/json'')],
           w\<lparr>client := (client w)\<lparr>authenticated_headers :=
                 [(''authorization'', ''Bearer '' @ py_str token),
                  (''content-type'', ''application/json'')]\<rparr>,
             sent := sent w @ [login_request (client w)]\<rparr>)"
proof -
  from assms have "authenticate_body be w =
     Some (Inr (),
           w\<lparr>client := (client w)\<lparr>authenticated_headers :=
                 [(''authorization'', ''Bearer '' @ py_str token),
                  (''content-type'', ''application/json'')]\<rparr>,
             sent := sent w @ [login_request (client w)]\<rparr>)"
    by (simp add: authenticate_body_def requests_post_def)
  from wrapper_returns [of "authenticate_body be", OF this] show ?thesis
    by (simp add: get_authenticated_headers_def authenticate_def)
qed

lemma stays_cached:
  assumes "authenticated_headers (client w) \<noteq> []" and "run_calls be cs w = Some w'"
  shows "client w' = client w \<and> logins (client w) (sent w') = logins (client w) (sent w) \<and>
         get_authenticated_headers be' w' = Some (Inr (authenticated_headers (client w)), w')"
proof -
  from assms(1) have "cached (client w) (logins (client w) (sent w)) w"
    by (simp add: cached_def)
  from cached_run_calls [OF this assms(2)]
  have "cached (client w) (logins (client w) (sent w)) w'" .
  then show ?thesis
    by (simp add: cached_def get_authenticated_headers_cached)
qed

lemma one_page_calls:
  "run_calls (paged_backend 0) [Get_authenticated_headers, Get_task_list_for_device_sync ''dev-1'']
     authed_world = Some w_one_page"
proof -
  note h = get_authenticated_headers_cached [OF authed_headers]
  from fetch_pages [OF h served_0, of "''dev-1''"]
  show ?thesis by (simp add: h w_one_page_def)
qed

text \<open>
  Claim C4, as the code has it. With no cached headers, a call of
  \<open>_get_authenticated_headers\<close> whose login the backend accepts (status 200, a body holding
  the access token) sends exactly one request, the login, stores the \<open>authorization\<close> header
  with the bearer token and the \<open>content-type\<close> header, and returns them. With cached
  headers, whatever calls are made on the client, in any number and order, the client stays
  as it was and no login request is sent, and a further call of
  \<open>_get_authenticated_headers\<close> returns the cached headers and leaves the world unchanged.
  The class has no operation that clears the headers.
\<close>

theorem credential_cache:
  "(authenticated_headers (client w) = [] \<and> be (sent w @ [login_request (client w)]) = Inr r \<and>
    status_code r = 200 \<and> response_json r = Inr j \<and>
    py_getitem j ''authentication'' = Inr a \<and> py_getitem a ''accessToken'' = Inr token \<longrightarrow>
      get_authenticated_headers be w =
        Some (Inr [(''authorization'', ''Bearer '' @ py_str token),
                   (''content-type'', ''application/json'')],
              w\<lparr>client := (client w)\<lparr>authenticated_headers :=
                    [(''authorization'', ''Bearer '' @ py_str token),
                     (''content-type'', ''application/json'')]\<rparr>,
                sent := sent w @ [login_request (client w)]\<rparr>)) \<and>
   (authenticated_headers (client w) \<noteq> [] \<and> run_calls be cs w = Some w' \<longrightarrow>
      client w' = client w \<and> logins (client w) (sent w') = logins (client w) (sent w) \<and>
      get_authenticated_headers be' w' = Some (Inr (authenticated_headers (client w)), w'))"
  using first_login [of w be r j a token] stays_cached [of w be cs w' be'] by blast

theorem credential_cache_witness:
  "(authenticated_headers (client demo_world) = [] \<and>
    login_backend (sent demo_world @ [login_request (client demo_world)]) =
      Inr (login_response ''t0k'') \<and>
    status_code (login_response ''t0k'') = 200 \<and>
    response_json (login_response ''t0k'') =
      Inr (JObj [(''authentication'', JObj [(''accessToken'', JStr ''t0k'')])]) \<and>
    py_getitem (JObj [(''authentication'', JObj [(''accessToken'', JStr ''t0k'')])])
      ''authentication'' = Inr (JObj [(''accessToken'', JStr ''t0k'')]) \<and>
    py_getitem (JObj [(''accessToken'', JStr ''t0k'')]) ''accessToken'' = Inr (JStr ''t0k'') \<and>
    get_authenticated_headers login_backend demo_world =
      Some (Inr [(''authorization'', ''Bearer t0k''), (''content-type'', ''application/json'')],
            w_logged_in)) \<and>
   (authenticated_headers (client authed_world) \<noteq> [] \<and>
    run_calls (paged_backend 0)
      [Get_authenticated_headers, Get_task_list_for_device_sync ''dev-1''] authed_world =
      Some w_one_page \<and>
    client w_one_page = client authed_world \<and>
    logins (client authed_world) (sent w_one_page) = logins (client authed_world) (sent authed_world) \<and>
    get_authenticated_headers down_backend w_one_page =
      Some (Inr (authenticated_headers (client authed_world)), w_one_page))"
proof -
  have a1: "authenticated_headers (client demo_world) = []"
    by (simp add: demo_world_def demo_client_def FormantClient_init_def)
  have a2: "login_backend (sent demo_world @ [login_request (client demo_world)]) =
      Inr (login_response ''t0k'')"
    by (simp add: login_backend_def)
  have a3: "status_code (login_response ''t0k'') = 200"
    by (simp add: login_response_def)
  have a4: "response_json (login_response ''t0k'') =
      Inr (JObj [(''authentication'', JObj [(''accessToken'', JStr ''t0k'')])])"
    by (simp add: login_response_def)
  have a5: "py_getitem (JObj [(''authentication'', JObj [(''accessToken'', JStr ''t0k'')])])
      ''authentication'' = Inr (JObj [(''accessToken'', JStr ''t0k'')])"
    by simp
  have a6: "py_getitem (JObj [(''accessToken'', JStr ''t0k'')]) ''accessToken'' = Inr (JStr ''t0k'')"
    by simp
  have r1: "get_authenticated_headers login_backend demo_world =
      Some (Inr [(''authorization'', ''Bearer t0k''), (''content-type'', ''application/json'')],
            w_logged_in)"
    using credential_cache [where w = demo_world and be = login_backend
        and r = "login_response ''t0k''"
        and j = "JObj [(''authentication'', JObj [(''accessToken'', JStr ''t0k'')])]"
        and a = "JObj [(''accessToken'', JStr ''t0k'')]" and token = "JStr ''t0k''"]
      a1 a2 a3 a4 a5 a6
    by (simp add: py_str_def w_logged_in_def)
  have r2: "client w_one_page = client authed_world \<and>
    logins (client authed_world) (sent w_one_page) = logins (client authed_world) (sent authed_world) \<and>
    get_authenticated_headers down_backend w_one_page =
      Some (Inr (authenticated_headers (client authed_world)), w_one_page)"
    using credential_cache [where w = authed_world and be = "paged_backend 0"
        and cs = "[Get_authenticated_headers, Get_task_list_for_device_sync ''dev-1'']"
        and w' = w_one_page and be' = down_backend]
      authed_headers one_page_calls
    by blast
  from a1 a2 a3 a4 a5 a6 r1 authed_headers one_page_calls r2 show ?thesis by blast
qed

text \<open>
  Claim C4 as stated fails: no method of a logged-in client, with any arguments, leaves the
  cached headers empty.
\<close>

theorem no_reset_counterexample:
  "\<not> (\<exists>c x w'. run_call garbled_backend c authed_world = Some (x, w') \<and>
                 authenticated_headers (client w') = [])"
proof
  assume "\<exists>c x w'. run_call garbled_backend c authed_world = Some (x, w') \<and>
                   authenticated_headers (client w') = []"
  then obtain c x w' where r: "run_call garbled_backend c authed_world = Some (x, w')"
    and e: "authenticated_headers (client w') = []"
    by blast
  have "cached (client authed_world) (logins (client authed_world) (sent authed_world)) authed_world"
    using authed_headers by (simp add: cached_def)
  from cached_run_call [OF this r] e show False
    by (simp add: cached_def)
qed

end
